theory Spec2Isabelle
  imports Main
begin

section \<open>Data model\<close>

text \<open>
  The backend keeps two MongoDB collections (User, Admin) and a directory of uploaded
  files. A collection is modelled as the list of its documents in insertion order, the
  upload directory as the set of paths of the files that exist. Object ids are natural
  numbers, dates are integers (milliseconds).
\<close>

type_synonym oid = nat
type_synonym timestamp = int

record social_handle =
  platform :: string
  handle :: string
  addedAt :: timestamp

record image =
  url :: string
  uploadedAt :: timestamp

text \<open>
  Modelled from the spec: the User schema of \<^verbatim>\<open>models/User.js\<close>, which \<^verbatim>\<open>index.js\<close>
  imports but which is not part of the sources. The fields are the ones the handlers read
  and write, together with \<open>createdAt\<close> of the spec's data model (section 3).
\<close>

record user =
  user_id :: oid
  email :: string
  password :: string
  name :: string
  socialHandles :: "social_handle list"
  images :: "image list"
  createdAt :: timestamp

text \<open>
  Modelled from the spec: the Admin schema of \<^verbatim>\<open>models/Admin.js\<close>, which is not part
  of the sources either: an id, the unique username and the stored password.
\<close>

record admin =
  admin_id :: oid
  username :: string
  admin_password :: string

record state =
  users :: "user list"
  admins :: "admin list"
  files :: "string set"

text \<open>
  The libraries the handlers call are parameters of the model: \<open>bcrypt.hash\<close> (plaintext,
  cost, and the salt it draws), \<open>bcrypt.compare\<close>, \<open>jwt.sign\<close> of the payload \<open>{id}\<close>
  (with the secret and the time of issue; the validity is the fixed \<open>24h\<close>),
  \<open>jwt.verify\<close> (token, secret, current time; \<open>None\<close> when it throws), the environment
  variable \<open>JWT_SECRET\<close>, and \<open>path.join(__dirname, '..', p)\<close>. Three more describe
  failures the handlers catch: the message of the \<open>CastError\<close> that \<open>findById\<close> throws
  for a string that is no object id, which paths are directories (\<open>fs.existsSync\<close> is
  true of a directory and \<open>fs.unlinkSync\<close> throws on it), and the message of that error.
\<close>

record env =
  bcrypt_hash :: "string \<Rightarrow> nat \<Rightarrow> string \<Rightarrow> string"
  bcrypt_compare :: "string \<Rightarrow> string \<Rightarrow> bool"
  jwt_sign :: "oid \<Rightarrow> string \<Rightarrow> timestamp \<Rightarrow> string"
  jwt_verify :: "string \<Rightarrow> string \<Rightarrow> timestamp \<Rightarrow> oid option"
  JWT_SECRET :: string
  path_join :: "string \<Rightarrow> string"
  User_salt_rounds :: nat
  cast_error :: "string \<Rightarrow> string"
  is_directory :: "string \<Rightarrow> bool"
  unlink_error :: "string \<Rightarrow> string"

datatype body =
    Message string
  | Error string
  | Token string
  | UserDoc user
  | UserDocs "user list"

datatype response = Response (status: nat) (body: body)

text \<open>
  The password of a login body as \<open>bcrypt.compare\<close> receives it: a string, or a value
  that is not a string, of which JavaScript's \<open>typeof\<close> is kept (\<open>undefined\<close> when the
  field is absent, \<open>number\<close>, \<open>boolean\<close>, \<open>object\<close>).
\<close>

datatype body_field = Str string | NotStr string

text \<open>
  \<open>req.params.id\<close> as \<open>findById\<close> receives it: a string that casts to an object id, or
  one that does not (\<open>findById\<close> then throws).
\<close>

datatype id_param = WellFormed oid | Malformed string

section \<open>Collections\<close>

definition User_findOne :: "user list \<Rightarrow> string \<Rightarrow> user option" where
  "User_findOne us e = find (\<lambda>u. email u = e) us"

definition User_findById :: "user list \<Rightarrow> oid \<Rightarrow> user option" where
  "User_findById us i = find (\<lambda>u. user_id u = i) us"

definition Admin_findOne :: "admin list \<Rightarrow> string \<Rightarrow> admin option" where
  "Admin_findOne as n = find (\<lambda>a. username a = n) as"

definition Admin_findById :: "admin list \<Rightarrow> oid \<Rightarrow> admin option" where
  "Admin_findById as i = find (\<lambda>a. admin_id a = i) as"

text \<open>\<open>User.findByIdAndDelete\<close>: the first document with that id is removed.\<close>

fun User_findByIdAndDelete :: "user list \<Rightarrow> oid \<Rightarrow> user list" where
  "User_findByIdAndDelete [] i = []"
| "User_findByIdAndDelete (v # vs) i =
     (if user_id v = i then vs else v # User_findByIdAndDelete vs i)"

text \<open>
  Modelled from the spec: \<open>save\<close> of a User document that was loaded from the collection
  (\<^verbatim>\<open>models/User.js\<close> is not part of the sources). The fields of the document are written
  over the first document with the same id; the password is stored as it was loaded.
\<close>

fun User_save :: "user list \<Rightarrow> user \<Rightarrow> user list" where
  "User_save [] u = []"
| "User_save (v # vs) u = (if user_id v = user_id u then u # vs else v # User_save vs u)"

text \<open>
  Modelled from the spec: \<open>save\<close> of a new User document (\<^verbatim>\<open>models/User.js\<close> is not part of
  the sources). The plaintext password is hashed before the document is inserted:
  "hashing is applied automatically on write" (spec 4.2). The cost factor of that hash is
  the parameter \<open>User_salt_rounds\<close>.
\<close>

definition User_save_new :: "env \<Rightarrow> user list \<Rightarrow> user \<Rightarrow> string \<Rightarrow> user list" where
  "User_save_new E us u salt =
     us @ [u\<lparr>password := bcrypt_hash E (password u) (User_salt_rounds E) salt\<rparr>]"

text \<open>
  Modelled from the spec: \<open>save\<close> of a new Admin document (\<^verbatim>\<open>models/Admin.js\<close> is not part
  of the sources). The document is inserted as given: the spec (section 7) and the
  comments of \<^verbatim>\<open>initAdmin.js\<close> say that the password handed to it is what is persisted.
\<close>

definition Admin_save_new :: "admin list \<Rightarrow> admin \<Rightarrow> admin list" where
  "Admin_save_new as a = as @ [a]"

section \<open>JavaScript helpers\<close>

text \<open>\<open>subject.replace(pat, rep)\<close> with a string pattern: the first occurrence only.\<close>

fun js_replace :: "string \<Rightarrow> string \<Rightarrow> string \<Rightarrow> string" where
  "js_replace pat rep [] = (if pat = [] then rep else [])"
| "js_replace pat rep (c # cs) =
     (if take (length pat) (c # cs) = pat then rep @ drop (length pat) (c # cs)
      else c # js_replace pat rep cs)"

text \<open>\<open>Array.prototype.findIndex\<close>: the first index whose element passes, or \<open>-1\<close>.\<close>

fun findIndex :: "('a \<Rightarrow> bool) \<Rightarrow> 'a list \<Rightarrow> int" where
  "findIndex P [] = - 1"
| "findIndex P (x # xs) =
     (if P x then 0 else (let r = findIndex P xs in if r = - 1 then - 1 else r + 1))"

text \<open>Truthiness of an optional string field: absent and the empty string are falsy.\<close>

fun truthy :: "string option \<Rightarrow> bool" where
  "truthy None = False"
| "truthy (Some s) = (s \<noteq> [])"

section \<open>Authentication middleware (index.js, auth and userAuth)\<close>

definition please_authenticate :: response where
  "please_authenticate = Response 401 (Error ''Please authenticate.'')"

definition auth :: "env \<Rightarrow> state \<Rightarrow> string option \<Rightarrow> timestamp \<Rightarrow> response + admin" where
  "auth E st authorization now =
     (case authorization of
        None \<Rightarrow> Inl please_authenticate
      | Some h \<Rightarrow>
          (case jwt_verify E (js_replace ''Bearer '' [] h) (JWT_SECRET E) now of
             None \<Rightarrow> Inl please_authenticate
           | Some i \<Rightarrow>
               (case Admin_findById (admins st) i of
                  None \<Rightarrow> Inl please_authenticate
                | Some a \<Rightarrow> Inr a)))"

definition userAuth :: "env \<Rightarrow> state \<Rightarrow> string option \<Rightarrow> timestamp \<Rightarrow> response + user" where
  "userAuth E st authorization now =
     (case authorization of
        None \<Rightarrow> Inl please_authenticate
      | Some h \<Rightarrow>
          (case jwt_verify E (js_replace ''Bearer '' [] h) (JWT_SECRET E) now of
             None \<Rightarrow> Inl please_authenticate
           | Some i \<Rightarrow>
               (case User_findById (users st) i of
                  None \<Rightarrow> Inl please_authenticate
                | Some u \<Rightarrow> Inr u)))"

section \<open>Admin bootstrap\<close>

text \<open>\<open>initializeAdmin\<close> of \<^verbatim>\<open>index.js\<close>, run once the connection is open.\<close>

definition initializeAdmin :: "env \<Rightarrow> state \<Rightarrow> oid \<Rightarrow> string \<Rightarrow> state" where
  "initializeAdmin E st new_id salt =
     (case Admin_findOne (admins st) ''admin@gmail.com'' of
        None \<Rightarrow>
          st\<lparr>admins := Admin_save_new (admins st)
               \<lparr>admin_id = new_id, username = ''admin@gmail.com'',
                admin_password = bcrypt_hash E ''admin'' 10 salt\<rparr>\<rparr>
      | Some existingAdmin \<Rightarrow> st)"

text \<open>
  \<open>initializeAdmin\<close> of the standalone script \<^verbatim>\<open>initAdmin.js\<close>. The second component is
  the exit status when the script calls \<open>process.exit(1)\<close>.
\<close>

definition initAdmin_initializeAdmin ::
  "string option \<Rightarrow> state \<Rightarrow> oid \<Rightarrow> state \<times> nat option" where
  "initAdmin_initializeAdmin MONGODB_URI st new_id =
     (if \<not> truthy MONGODB_URI then (st, Some 1)
      else
        (case Admin_findOne (admins st) ''admin@gmail.com'' of
           None \<Rightarrow>
             (st\<lparr>admins := Admin_save_new (admins st)
                  \<lparr>admin_id = new_id, username = ''admin@gmail.com'',
                   admin_password = ''admin''\<rparr>\<rparr>, None)
         | Some existingAdmin \<Rightarrow> (st, None)))"

section \<open>Route handlers (index.js)\<close>

text \<open>
  The fields of a registration and the identifier of a login are the strings the client
  supplied. The id of a new document, the salt and the current date are inputs of the
  handler; the dates read within one request are one instant \<open>now\<close>. \<open>createdAt\<close> of a
  new User is that instant (the schema's default, spec section 3).

  The \<open>catch\<close> branches answer what the calls of a handler throw, with the message of
  the error. The model has the throws that the request itself decides: \<open>bcrypt.compare\<close>
  of a password that is not a string, \<open>findById\<close> of a malformed id, \<open>path.join\<close> of an
  absent \<open>imagePath\<close> and \<open>fs.unlinkSync\<close> of a directory. It has no failure of the
  database connection.

  \<open>socialHandles\<close> and \<open>images\<close> are arrays on every document (registration creates
  them empty), and an array is truthy in JavaScript even when empty: the guards
  \<open>if (!user.socialHandles)\<close>, \<open>if (!user.images)\<close>, \<open>if (user.socialHandles)\<close> and
  \<open>user.images &&\<close> always take the same side and are not written out.
\<close>

definition register ::
  "env \<Rightarrow> state \<Rightarrow> string \<Rightarrow> string \<Rightarrow> string \<Rightarrow> oid \<Rightarrow> string \<Rightarrow> timestamp
     \<Rightarrow> state \<times> response" where
  "register E st em pw nm new_id salt now =
     (case User_findOne (users st) em of
        Some existingUser \<Rightarrow> (st, Response 400 (Error ''Email already registered''))
      | None \<Rightarrow>
          (st\<lparr>users := User_save_new E (users st)
               \<lparr>user_id = new_id, email = em, password = pw, name = nm,
                socialHandles = [], images = [], createdAt = now\<rparr> salt\<rparr>,
           Response 201 (Message ''Registration successful'')))"

definition invalid_credentials :: response where
  "invalid_credentials = Response 401 (Error ''Invalid credentials'')"

text \<open>
  \<open>bcrypt.compare(s, hash)\<close> rejects when \<open>s\<close> is not a string, with the message
  \<open>Illegal arguments: \<close> followed by the two \<open>typeof\<close>s; the stored hash is a string.
  The \<open>catch\<close> of either login handler answers it with status 500.
\<close>

definition illegal_arguments :: "string \<Rightarrow> response" where
  "illegal_arguments ty = Response 500 (Error (''Illegal arguments: '' @ ty @ '', string''))"

definition user_login ::
  "env \<Rightarrow> state \<Rightarrow> string \<Rightarrow> body_field \<Rightarrow> timestamp \<Rightarrow> response" where
  "user_login E st em pw now =
     (case User_findOne (users st) em of
        None \<Rightarrow> invalid_credentials
      | Some u \<Rightarrow>
          (case pw of
             NotStr ty \<Rightarrow> illegal_arguments ty
           | Str s \<Rightarrow>
               (if \<not> bcrypt_compare E s (password u) then invalid_credentials
                else Response 200 (Token (jwt_sign E (user_id u) (JWT_SECRET E) now)))))"

definition admin_login ::
  "env \<Rightarrow> state \<Rightarrow> string \<Rightarrow> body_field \<Rightarrow> timestamp \<Rightarrow> response" where
  "admin_login E st un pw now =
     (case Admin_findOne (admins st) un of
        None \<Rightarrow> invalid_credentials
      | Some a \<Rightarrow>
          (case pw of
             NotStr ty \<Rightarrow> illegal_arguments ty
           | Str s \<Rightarrow>
               (if \<not> bcrypt_compare E s (admin_password a) then invalid_credentials
                else Response 200 (Token (jwt_sign E (admin_id a) (JWT_SECRET E) now)))))"

text \<open>
  The upsert of lines 189 to 202: \<open>findIndex\<close> by platform, \<open>push\<close> when it is \<open>-1\<close>,
  otherwise assignment of \<open>handle\<close> and \<open>addedAt\<close> at that index.
\<close>

definition upsertSocialHandle ::
  "social_handle list \<Rightarrow> string \<Rightarrow> string \<Rightarrow> timestamp \<Rightarrow> social_handle list" where
  "upsertSocialHandle hs p h now =
     (let existingHandleIndex = findIndex (\<lambda>e. platform e = p) hs in
      if existingHandleIndex = - 1
      then hs @ [\<lparr>platform = p, handle = h, addedAt = now\<rparr>]
      else hs[nat existingHandleIndex :=
                (hs ! nat existingHandleIndex)\<lparr>handle := h, addedAt := now\<rparr>])"

text \<open>
  The upload handler after \<open>userAuth\<close> and multer: \<open>req_user\<close> is the document the
  middleware loaded, \<open>req_files\<close> the names multer stored the files under (\<open>None\<close> when the
  request carried no multipart files field).
\<close>

definition upload ::
  "state \<Rightarrow> user \<Rightarrow> string list option \<Rightarrow> string option \<Rightarrow> string option \<Rightarrow> timestamp
     \<Rightarrow> state \<times> response" where
  "upload st req_user req_files platform_field handle_field now =
     (let imgs = (case req_files of
                    None \<Rightarrow> []
                  | Some fs \<Rightarrow> map (\<lambda>f. \<lparr>url = ''/uploads/'' @ f, uploadedAt = now\<rparr>) fs);
          user1 = (if truthy platform_field \<and> truthy handle_field
                   then req_user\<lparr>socialHandles :=
                          upsertSocialHandle (socialHandles req_user)
                            (case platform_field of Some p \<Rightarrow> p | None \<Rightarrow> [])
                            (case handle_field of Some h \<Rightarrow> h | None \<Rightarrow> []) now\<rparr>
                   else req_user);
          user2 = (if length imgs > 0 then user1\<lparr>images := images user1 @ imgs\<rparr> else user1)
      in (st\<lparr>users := User_save (users st) user2\<rparr>, Response 201 (UserDoc user2)))"

definition listUsers :: "state \<Rightarrow> response" where
  "listUsers st = Response 200 (UserDocs (sort_key (\<lambda>u. - createdAt u) (users st)))"

text \<open>
  The loop of lines 239 to 244: each image file is unlinked when it exists. The urls of a
  user's images are the names multer stored the files under (line 175), so each path is
  that of a file, present or already gone.
\<close>

fun unlink_images :: "env \<Rightarrow> string set \<Rightarrow> image list \<Rightarrow> string set" where
  "unlink_images E fs [] = fs"
| "unlink_images E fs (im # ims) =
     (let fullPath = path_join E (url im)
      in unlink_images E (if fullPath \<in> fs then fs - {fullPath} else fs) ims)"

text \<open>
  The three admin handlers that take \<open>req.params.id\<close>. For a malformed id \<open>findById\<close>
  throws before anything is changed, and the \<open>catch\<close> answers 500 with the message.
\<close>

definition deleteUser :: "env \<Rightarrow> state \<Rightarrow> id_param \<Rightarrow> state \<times> response" where
  "deleteUser E st req_id =
     (case req_id of
        Malformed v \<Rightarrow> (st, Response 500 (Error (cast_error E v)))
      | WellFormed i \<Rightarrow>
          (case User_findById (users st) i of
             None \<Rightarrow> (st, Response 404 (Error ''User not found''))
           | Some u \<Rightarrow>
               (st\<lparr>files := (if length (images u) > 0
                              then unlink_images E (files st) (images u) else files st),
                   users := User_findByIdAndDelete (users st) i\<rparr>,
                Response 200 (Message ''User deleted successfully''))))"

text \<open>
  \<open>imagePath\<close> and \<open>platform\<close> of the two remaining handlers may be absent from the body.
  With \<open>imagePath\<close> undefined the filter keeps every image, the user is saved, and
  \<open>path.join\<close> throws, which the handler answers with status 500. So it answers an
  \<open>imagePath\<close> that joins to a directory: the user is saved, \<open>fs.existsSync\<close> is true and
  \<open>fs.unlinkSync\<close> throws.
\<close>

definition deleteUserImage ::
  "env \<Rightarrow> state \<Rightarrow> id_param \<Rightarrow> string option \<Rightarrow> state \<times> response" where
  "deleteUserImage E st req_id imagePath =
     (case req_id of
        Malformed v \<Rightarrow> (st, Response 500 (Error (cast_error E v)))
      | WellFormed i \<Rightarrow>
          (case User_findById (users st) i of
             None \<Rightarrow> (st, Response 404 (Error ''User not found''))
           | Some u \<Rightarrow>
               (let saved = st\<lparr>users := User_save (users st)
                               (u\<lparr>images :=
                                    filter (\<lambda>img. Some (url img) \<noteq> imagePath) (images u)\<rparr>)\<rparr>
                in case imagePath of
                     None \<Rightarrow>
                       (saved, Response 500
                          (Error (''The '' @ [CHR 0x22] @ ''path'' @ [CHR 0x22] @
                             '' argument must be of type string. Received undefined'')))
                   | Some p \<Rightarrow>
                       (let fullPath = path_join E p
                        in if is_directory E fullPath
                           then (saved, Response 500 (Error (unlink_error E fullPath)))
                           else (saved\<lparr>files := (if fullPath \<in> files saved
                                                   then files saved - {fullPath}
                                                   else files saved)\<rparr>,
                                 Response 200 (Message ''Image deleted successfully''))))))"

definition deleteSocialHandle ::
  "env \<Rightarrow> state \<Rightarrow> id_param \<Rightarrow> string option \<Rightarrow> state \<times> response" where
  "deleteSocialHandle E st req_id platform_field =
     (case req_id of
        Malformed v \<Rightarrow> (st, Response 500 (Error (cast_error E v)))
      | WellFormed i \<Rightarrow>
          (case User_findById (users st) i of
             None \<Rightarrow> (st, Response 404 (Error ''User not found''))
           | Some u \<Rightarrow>
               (st\<lparr>users := User_save (users st)
                    (u\<lparr>socialHandles :=
                         filter (\<lambda>h. Some (platform h) \<noteq> platform_field)
                           (socialHandles u)\<rparr>)\<rparr>,
                Response 200 (Message ''Social handle deleted successfully''))))"

section \<open>Routing\<close>

text \<open>
  The upload route runs \<open>userAuth\<close>, then multer (\<open>upload.array('images', 5)\<close>), which
  stores each file under the uploads directory and refuses a request with more than five
  files (its error \<open>Unexpected field\<close> reaches the default error handler, status 500,
  and the files of the request are not kept), then the handler. The admin routes run
  \<open>auth\<close> first.
\<close>

definition multer_store :: "env \<Rightarrow> state \<Rightarrow> string list option \<Rightarrow> state" where
  "multer_store E st req_files =
     (case req_files of
        None \<Rightarrow> st
      | Some fs \<Rightarrow> st\<lparr>files := files st \<union> set (map (\<lambda>f. path_join E (''/uploads/'' @ f)) fs)\<rparr>)"

datatype request =
    Register string string string
  | UserLogin string body_field
  | AdminLogin string body_field
  | Upload "string option" "string list option" "string option" "string option"
  | ListUsers "string option"
  | DeleteUser "string option" id_param
  | DeleteUserImage "string option" id_param "string option"
  | DeleteSocialHandle "string option" id_param "string option"

fun handle_request ::
  "env \<Rightarrow> state \<Rightarrow> request \<Rightarrow> oid \<Rightarrow> string \<Rightarrow> timestamp \<Rightarrow> state \<times> response" where
  "handle_request E st (Register em pw nm) new_id salt now = register E st em pw nm new_id salt now"
| "handle_request E st (UserLogin em pw) new_id salt now = (st, user_login E st em pw now)"
| "handle_request E st (AdminLogin un pw) new_id salt now = (st, admin_login E st un pw now)"
| "handle_request E st (Upload authorization req_files p h) new_id salt now =
     (case userAuth E st authorization now of
        Inl r \<Rightarrow> (st, r)
      | Inr req_user \<Rightarrow>
          (if (case req_files of None \<Rightarrow> False | Some fs \<Rightarrow> length fs > 5)
           then (st, Response 500 (Error ''Unexpected field''))
           else upload (multer_store E st req_files) req_user req_files p h now))"
| "handle_request E st (ListUsers authorization) new_id salt now =
     (case auth E st authorization now of
        Inl r \<Rightarrow> (st, r)
      | Inr req_admin \<Rightarrow> (st, listUsers st))"
| "handle_request E st (DeleteUser authorization i) new_id salt now =
     (case auth E st authorization now of
        Inl r \<Rightarrow> (st, r)
      | Inr req_admin \<Rightarrow> deleteUser E st i)"
| "handle_request E st (DeleteUserImage authorization i imagePath) new_id salt now =
     (case auth E st authorization now of
        Inl r \<Rightarrow> (st, r)
      | Inr req_admin \<Rightarrow> deleteUserImage E st i imagePath)"
| "handle_request E st (DeleteSocialHandle authorization i p) new_id salt now =
     (case auth E st authorization now of
        Inl r \<Rightarrow> (st, r)
      | Inr req_admin \<Rightarrow> deleteSocialHandle E st i p)"

section \<open>Reachable states\<close>

text \<open>
  The states reached from empty collections when the requests are handled one at a time:
  either bootstrap, or a request that runs from its first line to its answer before the
  next one starts.
\<close>

inductive reachable_sequentially :: "env \<Rightarrow> state \<Rightarrow> bool" for E :: env where
  init: "reachable_sequentially E \<lparr>users = [], admins = [], files = F\<rparr>"
| boot: "reachable_sequentially E st \<Longrightarrow>
         reachable_sequentially E (initializeAdmin E st new_id salt)"
| script: "reachable_sequentially E st \<Longrightarrow>
           reachable_sequentially E (fst (initAdmin_initializeAdmin uri st new_id))"
| request: "reachable_sequentially E st \<Longrightarrow>
            reachable_sequentially E (fst (handle_request E st r new_id salt now))"

text \<open>
  The server does not handle requests one at a time: a handler gives way at every
  \<open>await\<close>. An upload loads its copy of the user in \<open>userAuth\<close> (line 70) and saves it at
  the end of the handler (line 213); other requests run in between. What the save writes
  is then what the handler did to its copy, not the copy: mongoose sends a \<open>push\<close> on an
  array as a \<open>$push\<close>, which appends to the array as it is stored at that moment.
  \<open>User_push\<close> is that update, on the first document with the id.
\<close>

fun User_push :: "user list \<Rightarrow> oid \<Rightarrow> social_handle list \<Rightarrow> image list \<Rightarrow> user list" where
  "User_push [] i hs ims = []"
| "User_push (v # vs) i hs ims =
     (if user_id v = i
      then v\<lparr>socialHandles := socialHandles v @ hs, images := images v @ ims\<rparr> # vs
      else v # User_push vs i hs ims)"

text \<open>
  An upload whose handler assigns to an entry it found (lines 200 and 201) rather than
  pushing a new one. How mongoose saves such an assignment over a document that has
  changed since it was loaded depends on its version check; the relation below leaves
  that case to the uninterrupted requests.
\<close>

definition assigns_existing :: "user \<Rightarrow> string option \<Rightarrow> string option \<Rightarrow> bool" where
  "assigns_existing req_user platform_field handle_field =
     (truthy platform_field \<and> truthy handle_field \<and>
      findIndex (\<lambda>e. Some (platform e) = platform_field) (socialHandles req_user) \<noteq> - 1)"

text \<open>
  The second half of an upload that was interrupted after \<open>userAuth\<close>: multer stores the
  files, the handler works on the copy \<open>req_user\<close> loaded earlier (lines 173 to 211), and
  the save appends what the handler pushed to the stored document.
\<close>

definition upload_resumed ::
  "env \<Rightarrow> state \<Rightarrow> user \<Rightarrow> string list option \<Rightarrow> string option \<Rightarrow> string option \<Rightarrow> timestamp
     \<Rightarrow> state" where
  "upload_resumed E st req_user req_files platform_field handle_field now =
     (let imgs = (case req_files of
                    None \<Rightarrow> []
                  | Some fs \<Rightarrow> map (\<lambda>f. \<lparr>url = ''/uploads/'' @ f, uploadedAt = now\<rparr>) fs);
          pushed = (if truthy platform_field \<and> truthy handle_field \<and>
                       findIndex (\<lambda>e. Some (platform e) = platform_field)
                         (socialHandles req_user) = - 1
                    then [\<lparr>platform = (case platform_field of Some p \<Rightarrow> p | None \<Rightarrow> []),
                           handle = (case handle_field of Some h \<Rightarrow> h | None \<Rightarrow> []),
                           addedAt = now\<rparr>]
                    else [])
      in (multer_store E st req_files)
           \<lparr>users := User_push (users st) (user_id req_user) pushed imgs\<rparr>)"

text \<open>
  States the server reaches, with the uploads that have loaded their user and not yet
  saved: every step of the relation above, and an upload in two steps, the load and
  later the save. Every state of the first relation is one of these; the converse fails.
  The other handlers that load and save give way in between as well; the relation does
  not split them, so it holds a part of what the server can reach, not all of it.
\<close>

type_synonym pending_upload = "user \<times> string list option \<times> string option \<times> string option"

inductive reachable :: "env \<Rightarrow> state \<Rightarrow> pending_upload list \<Rightarrow> bool" for E :: env where
  start: "reachable E \<lparr>users = [], admins = [], files = F\<rparr> []"
| bootstrap: "reachable E st ps \<Longrightarrow> reachable E (initializeAdmin E st new_id salt) ps"
| bootstrap_script:
    "reachable E st ps \<Longrightarrow> reachable E (fst (initAdmin_initializeAdmin uri st new_id)) ps"
| uninterrupted:
    "reachable E st ps \<Longrightarrow> reachable E (fst (handle_request E st r new_id salt now)) ps"
| upload_loaded:
    "reachable E st ps \<Longrightarrow> userAuth E st authorization now = Inr req_user \<Longrightarrow>
     \<not> (case req_files of None \<Rightarrow> False | Some fs \<Rightarrow> length fs > 5) \<Longrightarrow>
     reachable E st ((req_user, req_files, p, h) # ps)"
| upload_saved:
    "reachable E st ps \<Longrightarrow> (req_user, req_files, p, h) \<in> set ps \<Longrightarrow>
     \<not> assigns_existing req_user p h \<Longrightarrow>
     reachable E (upload_resumed E st req_user req_files p h now)
       (remove1 (req_user, req_files, p, h) ps)"

text \<open>The invariant of the data model: no user has two entries for one platform.\<close>

definition handles_ok :: "state \<Rightarrow> bool" where
  "handles_ok st = (\<forall>u \<in> set (users st). distinct (map platform (socialHandles u)))"



section \<open>A concrete instance\<close>

text \<open>
  An instance of the library parameters and a short run of the system, on which the
  theorems below are evaluated: one registration, then one upload by that user.
\<close>

definition example_env :: env where
  "example_env =
     \<lparr>bcrypt_hash = (\<lambda>p r s. CHR ''$'' # p),
      bcrypt_compare = (\<lambda>p h. h = CHR ''$'' # p),
      jwt_sign = (\<lambda>i secret t. secret @ replicate i (CHR ''.'')),
      jwt_verify = (\<lambda>tok secret t.
         if take (length secret) tok = secret then Some (length tok - length secret) else None),
      JWT_SECRET = ''k'',
      path_join = (\<lambda>p. ''/app'' @ p),
      User_salt_rounds = 10,
      cast_error = (\<lambda>v. ''Cast to ObjectId failed for value '' @ v),
      is_directory = (\<lambda>p. p = ''/app/uploads''),
      unlink_error = (\<lambda>p. ''EISDIR: illegal operation on a directory, unlink '' @ p)\<rparr>"

definition example_registered :: state where
  "example_registered =
     fst (handle_request example_env \<lparr>users = [], admins = [], files = {}\<rparr>
            (Register ''ann@example.org'' ''secret'' ''Ann'') 1 [] 0)"

definition example_uploaded :: state where
  "example_uploaded =
     fst (handle_request example_env example_registered
            (Upload (Some ''Bearer k.'') (Some [''7.png'']) (Some ''twitter'') (Some ''a''))
            2 [] 7)"

definition example_user :: user where
  "example_user =
     \<lparr>user_id = 1, email = ''ann@example.org'', password = ''$secret'', name = ''Ann'',
      socialHandles = [\<lparr>platform = ''twitter'', handle = ''a'', addedAt = 7\<rparr>],
      images = [\<lparr>url = ''/uploads/7.png'', uploadedAt = 7\<rparr>], createdAt = 0\<rparr>"

definition example_booted :: state where
  "example_booted = initializeAdmin example_env example_uploaded 2 []"

text \<open>
  A second run: after the registration two uploads of the same user, each for the
  platform \<open>twitter\<close>, both loaded before either is saved.
\<close>

definition example_loaded :: user where
  "example_loaded =
     \<lparr>user_id = 1, email = ''ann@example.org'', password = ''$secret'', name = ''Ann'',
      socialHandles = [], images = [], createdAt = 0\<rparr>"

definition example_raced :: state where
  "example_raced =
     upload_resumed example_env
       (upload_resumed example_env example_registered
          example_loaded None (Some ''twitter'') (Some ''a'') 7)
       example_loaded None (Some ''twitter'') (Some ''b'') 8"

section \<open>Auxiliary facts\<close>

subsection \<open>findIndex\<close>

lemma findIndex_lower: "- 1 \<le> findIndex P xs"
  by (induction xs) (auto simp: Let_def)

lemma findIndex_none: "findIndex P xs = - 1 \<longleftrightarrow> (\<forall>x \<in> set xs. \<not> P x)"
proof (induction xs)
  case Nil
  then show ?case by simp
next
  case (Cons x xs)
  have "- 1 \<le> findIndex P xs" by (rule findIndex_lower)
  with Cons show ?case by (auto simp: Let_def)
qed

lemma findIndex_found:
  assumes "findIndex P xs \<noteq> - 1"
  shows "nat (findIndex P xs) < length xs \<and> P (xs ! nat (findIndex P xs)) \<and>
         (\<forall>j < nat (findIndex P xs). \<not> P (xs ! j))"
  using assms
proof (induction xs)
  case Nil
  then show ?case by simp
next
  case (Cons x xs)
  show ?case
  proof (cases "P x")
    case True
    then show ?thesis by simp
  next
    case False
    with Cons.prems have ne: "findIndex P xs \<noteq> - 1" by (auto simp: Let_def split: if_splits)
    have lo: "- 1 \<le> findIndex P xs" by (rule findIndex_lower)
    from ne lo have nn: "0 \<le> findIndex P xs" by arith
    then have eq: "nat (findIndex P xs + 1) = Suc (nat (findIndex P xs))" by arith
    from Cons.IH [OF ne] False ne eq show ?thesis
      by (auto simp: Let_def nth_Cons split: nat.splits)
  qed
qed

subsection \<open>The upsert\<close>

lemma upsert_platforms:
  "map platform (upsertSocialHandle hs p h now) =
     (if p \<in> platform ` set hs then map platform hs else map platform hs @ [p])"
proof (cases "findIndex (\<lambda>e. platform e = p) hs = - 1")
  case True
  then have "p \<notin> platform ` set hs" by (auto simp: findIndex_none)
  with True show ?thesis by (simp add: upsertSocialHandle_def)
next
  case False
  from findIndex_found [OF False]
  have lt: "nat (findIndex (\<lambda>e. platform e = p) hs) < length hs"
    and at: "platform (hs ! nat (findIndex (\<lambda>e. platform e = p) hs)) = p" by simp_all
  from lt at have mem: "p \<in> platform ` set hs" by (metis imageI nth_mem)
  have "map platform (hs[nat (findIndex (\<lambda>e. platform e = p) hs) :=
          (hs ! nat (findIndex (\<lambda>e. platform e = p) hs))\<lparr>handle := h, addedAt := now\<rparr>])
        = (map platform hs)[nat (findIndex (\<lambda>e. platform e = p) hs) := p]"
    using at by (simp add: map_update)
  also have "\<dots> = map platform hs"
    using lt at by (metis list_update_id nth_map)
  finally show ?thesis using False mem by (simp add: upsertSocialHandle_def Let_def)
qed

lemma upsert_distinct:
  "distinct (map platform hs) \<Longrightarrow> distinct (map platform (upsertSocialHandle hs p h now))"
  by (simp add: upsert_platforms)

subsection \<open>Saving and finding\<close>

lemma find_Some_holds: "find P xs = Some x \<Longrightarrow> P x \<and> x \<in> set xs"
  by (induction xs) (auto split: if_splits)

lemma User_save_set: "set (User_save us u) \<subseteq> insert u (set us)"
  by (induction us) auto

lemma User_findByIdAndDelete_set: "set (User_findByIdAndDelete us i) \<subseteq> set us"
  by (induction us) auto

lemma User_findById_mem: "User_findById us i = Some u \<Longrightarrow> u \<in> set us \<and> user_id u = i"
  unfolding User_findById_def by (drule find_Some_holds) simp

lemma User_findById_save:
  "User_findById us i = Some u \<Longrightarrow> user_id u' = i \<Longrightarrow> User_findById (User_save us u') i = Some u'"
  by (induction us) (auto simp: User_findById_def split: if_splits)

lemma User_save_same: "User_findById us i = Some u \<Longrightarrow> User_save us u = us"
  by (induction us) (auto simp: User_findById_def split: if_splits dest: find_Some_holds)

lemma User_findByIdAndDelete_remove1:
  "User_findById us i = Some u \<Longrightarrow> User_findByIdAndDelete us i = remove1 u us"
  by (induction us) (auto simp: User_findById_def split: if_splits dest: find_Some_holds)

subsection \<open>The invariant is preserved by every step\<close>

lemma userAuth_mem: "userAuth E st a now = Inr u \<Longrightarrow> u \<in> set (users st)"
  by (auto simp: userAuth_def split: option.splits dest: User_findById_mem)

lemma users_multer_store [simp]: "users (multer_store E st fs) = users st"
  by (simp add: multer_store_def split: option.splits)

lemma handles_ok_save:
  "handles_ok st \<Longrightarrow> distinct (map platform (socialHandles u)) \<Longrightarrow>
   handles_ok (st\<lparr>users := User_save (users st) u\<rparr>)"
  using User_save_set [of "users st" u] by (auto simp: handles_ok_def)

lemma handles_ok_files [simp]: "handles_ok (st\<lparr>files := F\<rparr>) = handles_ok st"
  by (simp add: handles_ok_def)

lemma handles_ok_admins [simp]: "handles_ok (st\<lparr>admins := A\<rparr>) = handles_ok st"
  by (simp add: handles_ok_def)

lemma handles_ok_multer [simp]: "handles_ok (multer_store E st fs) = handles_ok st"
  by (simp add: handles_ok_def)

lemma handles_ok_register:
  "handles_ok st \<Longrightarrow> handles_ok (fst (register E st em pw nm new_id salt now))"
  by (auto simp: register_def handles_ok_def User_save_new_def split: option.splits)

lemma upload_socialHandles:
  "upload st u fs p h now = (st', r) \<Longrightarrow>
   \<exists>u'. r = Response 201 (UserDoc u') \<and> st' = st\<lparr>users := User_save (users st) u'\<rparr> \<and>
        user_id u' = user_id u \<and> password u' = password u \<and>
        socialHandles u' =
          (case (p, h) of
             (Some p', Some h') \<Rightarrow>
               if p' \<noteq> [] \<and> h' \<noteq> [] then upsertSocialHandle (socialHandles u) p' h' now
               else socialHandles u
           | _ \<Rightarrow> socialHandles u)"
  by (cases p; cases h) (auto simp: upload_def Let_def)

lemma handles_ok_upload:
  assumes "handles_ok st" and "distinct (map platform (socialHandles u))"
  shows "handles_ok (fst (upload st u fs p h now))"
proof -
  obtain st' r where eq: "upload st u fs p h now = (st', r)" by (cases "upload st u fs p h now")
  from upload_socialHandles [OF eq] obtain u' where
    st': "st' = st\<lparr>users := User_save (users st) u'\<rparr>" and
    sh: "socialHandles u' =
          (case (p, h) of
             (Some p', Some h') \<Rightarrow>
               if p' \<noteq> [] \<and> h' \<noteq> [] then upsertSocialHandle (socialHandles u) p' h' now
               else socialHandles u
           | _ \<Rightarrow> socialHandles u)" by blast
  from sh assms(2) have "distinct (map platform (socialHandles u'))"
    by (auto simp: upsert_distinct split: option.splits)
  with assms(1) st' eq show ?thesis by (simp add: handles_ok_save)
qed

lemma handles_ok_deleteUser: "handles_ok st \<Longrightarrow> handles_ok (fst (deleteUser E st req_id))"
proof (cases req_id)
  case (WellFormed i)
  assume "handles_ok st"
  with WellFormed User_findByIdAndDelete_set [of "users st" i] show ?thesis
    by (auto simp: deleteUser_def handles_ok_def split: option.splits)
next
  case (Malformed v)
  assume "handles_ok st"
  with Malformed show ?thesis by (simp add: deleteUser_def)
qed

lemma handles_ok_deleteUserImage:
  assumes "handles_ok st"
  shows "handles_ok (fst (deleteUserImage E st req_id imagePath))"
proof (cases req_id)
  case (Malformed v)
  with assms show ?thesis by (simp add: deleteUserImage_def)
next
  case (WellFormed i)
  show ?thesis
  proof (cases "User_findById (users st) i")
    case None
    with WellFormed assms show ?thesis by (simp add: deleteUserImage_def)
  next
    case (Some u)
    then have "u \<in> set (users st)" by (simp add: User_findById_mem)
    with assms have "distinct (map platform (socialHandles u))" by (simp add: handles_ok_def)
    then have "handles_ok (st\<lparr>users := User_save (users st) (u\<lparr>images := X\<rparr>)\<rparr>)"
      and "handles_ok (st\<lparr>users := User_save (users st) u\<rparr>)" for X
      using assms by (simp_all add: handles_ok_save)
    with Some WellFormed show ?thesis
      by (simp add: deleteUserImage_def Let_def split: option.splits)
  qed
qed

lemma handles_ok_deleteSocialHandle:
  assumes "handles_ok st"
  shows "handles_ok (fst (deleteSocialHandle E st req_id p))"
proof (cases req_id)
  case (Malformed v)
  with assms show ?thesis by (simp add: deleteSocialHandle_def)
next
  case (WellFormed i)
  show ?thesis
  proof (cases "User_findById (users st) i")
    case None
    with WellFormed assms show ?thesis by (simp add: deleteSocialHandle_def)
  next
    case (Some u)
    then have "u \<in> set (users st)" by (simp add: User_findById_mem)
    with assms have "distinct (map platform (socialHandles u))" by (simp add: handles_ok_def)
    then have "distinct (map platform (filter (\<lambda>h. Some (platform h) \<noteq> p) (socialHandles u)))"
      by (rule distinct_map_filter)
    then have "handles_ok (st\<lparr>users := User_save (users st)
        (u\<lparr>socialHandles := filter (\<lambda>h. Some (platform h) \<noteq> p) (socialHandles u)\<rparr>)\<rparr>)"
      using assms by (intro handles_ok_save) simp_all
    with Some WellFormed show ?thesis by (simp add: deleteSocialHandle_def)
  qed
qed

lemma handles_ok_request:
  assumes "handles_ok st"
  shows "handles_ok (fst (handle_request E st r new_id salt now))"
proof (cases r)
  case (Register em pw nm)
  with assms show ?thesis by (simp add: handles_ok_register)
next
  case (Upload a fs p h)
  show ?thesis
  proof (cases "userAuth E st a now")
    case (Inl e)
    with Upload assms show ?thesis by simp
  next
    case (Inr u)
    then have "u \<in> set (users st)" by (rule userAuth_mem)
    with assms have "distinct (map platform (socialHandles u))" by (simp add: handles_ok_def)
    then have "handles_ok (fst (upload (multer_store E st fs) u fs p h now))"
      using assms by (intro handles_ok_upload) simp_all
    with Upload Inr assms show ?thesis by simp
  qed
next
  case (DeleteUser a i)
  with assms show ?thesis by (simp add: handles_ok_deleteUser split: sum.splits)
next
  case (DeleteUserImage a i p)
  with assms show ?thesis by (simp add: handles_ok_deleteUserImage split: sum.splits)
next
  case (DeleteSocialHandle a i p)
  with assms show ?thesis by (simp add: handles_ok_deleteSocialHandle split: sum.splits)
qed (use assms in \<open>simp_all split: sum.splits\<close>)

lemma reachable_sequentially_handles_ok: "reachable_sequentially E st \<Longrightarrow> handles_ok st"
proof (induction rule: reachable_sequentially.induct)
  case (init F)
  show ?case by (simp add: handles_ok_def)
next
  case (boot st new_id salt)
  then show ?case by (simp add: initializeAdmin_def split: option.splits)
next
  case (script st uri new_id)
  then show ?case by (simp add: initAdmin_initializeAdmin_def split: option.splits)
next
  case (request st r new_id salt now)
  from request.IH show ?case by (rule handles_ok_request)
qed

subsection \<open>The concrete run\<close>


lemma example_registered_eq:
  "example_registered =
     \<lparr>users = [\<lparr>user_id = 1, email = ''ann@example.org'', password = ''$secret'',
                 name = ''Ann'', socialHandles = [], images = [], createdAt = 0\<rparr>],
      admins = [], files = {}\<rparr>"
  by (simp add: example_registered_def register_def User_findOne_def User_save_new_def
      example_env_def)

lemma example_userAuth:
  "userAuth example_env example_registered (Some ''Bearer k.'') 7 =
     Inr \<lparr>user_id = 1, email = ''ann@example.org'', password = ''$secret'',
          name = ''Ann'', socialHandles = [], images = [], createdAt = 0\<rparr>"
  by (simp add: example_registered_eq userAuth_def example_env_def User_findById_def)

lemma example_uploaded_eq:
  "example_uploaded =
     \<lparr>users = [\<lparr>user_id = 1, email = ''ann@example.org'', password = ''$secret'',
                 name = ''Ann'',
                 socialHandles = [\<lparr>platform = ''twitter'', handle = ''a'', addedAt = 7\<rparr>],
                 images = [\<lparr>url = ''/uploads/7.png'', uploadedAt = 7\<rparr>], createdAt = 0\<rparr>],
      admins = [], files = {''/app/uploads/7.png''}\<rparr>"
  by (simp add: example_uploaded_def example_userAuth)
     (simp add: example_registered_eq upload_def multer_store_def upsertSocialHandle_def Let_def
        example_env_def)

lemma example_reachable: "reachable_sequentially example_env example_uploaded"
  unfolding example_uploaded_def example_registered_def
  by (intro reachable_sequentially.request reachable_sequentially.init)

subsection \<open>Which requests touch socialHandles\<close>

lemma User_save_frame:
  "User_findById us i = Some u \<Longrightarrow> user_id v = user_id u \<Longrightarrow>
   socialHandles v = socialHandles u \<Longrightarrow>
   map (\<lambda>u. (user_id u, socialHandles u)) (User_save us v) =
   map (\<lambda>u. (user_id u, socialHandles u)) us"
  by (induction us) (auto simp: User_findById_def split: if_splits dest: find_Some_holds)

lemma handle_request_frame:
  assumes "\<forall>a fs p h. r \<noteq> Upload a fs p h" and "\<forall>a i p. r \<noteq> DeleteSocialHandle a i p"
  shows "map (\<lambda>u. (user_id u, socialHandles u))
             (users (fst (handle_request E st r new_id salt now))) =
           map (\<lambda>u. (user_id u, socialHandles u)) (users st) \<or>
         (\<exists>u. users (fst (handle_request E st r new_id salt now)) = users st @ [u] \<and>
              socialHandles u = []) \<or>
         (\<exists>u \<in> set (users st).
            users (fst (handle_request E st r new_id salt now)) = remove1 u (users st))"
proof (cases r)
  case (Register em pw nm)
  then show ?thesis
    by (auto simp: register_def User_save_new_def split: option.splits)
next
  case (UserLogin em pw)
  then show ?thesis by simp
next
  case (AdminLogin un pw)
  then show ?thesis by simp
next
  case (Upload a fs p h)
  with assms(1) show ?thesis by simp
next
  case (ListUsers a)
  then show ?thesis by (simp split: sum.splits)
next
  case (DeleteUser a req_id)
  show ?thesis
  proof (cases "auth E st a now")
    case (Inl e)
    with DeleteUser show ?thesis by simp
  next
    case (Inr adm)
    show ?thesis
    proof (cases req_id)
      case (Malformed v)
      with Inr DeleteUser show ?thesis by (simp add: deleteUser_def)
    next
      case (WellFormed i)
      show ?thesis
      proof (cases "User_findById (users st) i")
        case None
        with WellFormed Inr DeleteUser show ?thesis by (simp add: deleteUser_def)
      next
        case (Some u)
        then have "u \<in> set (users st)" by (simp add: User_findById_mem)
        moreover from Some WellFormed Inr DeleteUser
        have "users (fst (handle_request E st r new_id salt now)) = remove1 u (users st)"
          by (simp add: deleteUser_def User_findByIdAndDelete_remove1)
        ultimately show ?thesis by blast
      qed
    qed
  qed
next
  case (DeleteUserImage a req_id ip)
  show ?thesis
  proof (cases "auth E st a now")
    case (Inl e)
    with DeleteUserImage show ?thesis by simp
  next
    case (Inr adm)
    show ?thesis
    proof (cases req_id)
      case (Malformed v)
      with Inr DeleteUserImage show ?thesis by (simp add: deleteUserImage_def)
    next
      case (WellFormed i)
      show ?thesis
      proof (cases "User_findById (users st) i")
        case None
        with WellFormed Inr DeleteUserImage show ?thesis by (simp add: deleteUserImage_def)
      next
        case (Some u)
        let ?v = "u\<lparr>images := filter (\<lambda>img. Some (url img) \<noteq> ip) (images u)\<rparr>"
        from Some WellFormed Inr DeleteUserImage
        have "users (fst (handle_request E st r new_id salt now)) = User_save (users st) ?v"
          by (simp add: deleteUserImage_def Let_def split: option.splits)
        moreover from Some have "map (\<lambda>u. (user_id u, socialHandles u)) (User_save (users st) ?v) =
            map (\<lambda>u. (user_id u, socialHandles u)) (users st)"
          by (rule User_save_frame) simp_all
        ultimately show ?thesis by simp
      qed
    qed
  qed
next
  case (DeleteSocialHandle a i p)
  with assms(2) show ?thesis by simp
qed

subsection \<open>Interrupted uploads\<close>

lemma reachable_sequentially_reachable: "reachable_sequentially E st \<Longrightarrow> reachable E st []"
  by (induction rule: reachable_sequentially.induct)
     (auto intro: reachable.start reachable.bootstrap reachable.bootstrap_script
        reachable.uninterrupted)

lemma User_push_uninterrupted:
  "User_findById us (user_id u) = Some u \<Longrightarrow>
   User_push us (user_id u) hs ims =
   User_save us (u\<lparr>socialHandles := socialHandles u @ hs, images := images u @ ims\<rparr>)"
  by (induction us) (auto simp: User_findById_def split: if_splits)

text \<open>
  When nothing has run between the load and the save, the stored document is still the
  loaded copy, and the two halves leave the state the handler leaves in one piece.
\<close>

lemma upload_resumed_uninterrupted:
  assumes "User_findById (users st) (user_id u) = Some u" and "\<not> assigns_existing u p h"
  shows "upload_resumed E st u fs p h now = fst (upload (multer_store E st fs) u fs p h now)"
proof (cases "truthy p \<and> truthy h")
  case False
  then show ?thesis
    using User_push_uninterrupted [OF assms(1), of "[]"]
    by (auto simp: upload_resumed_def upload_def Let_def)
next
  case True
  then obtain p' h' where ph: "p = Some p'" "h = Some h'" "p' \<noteq> []" "h' \<noteq> []"
    by (cases p; cases h) auto
  with assms(2) have none: "findIndex (\<lambda>e. platform e = p') (socialHandles u) = - 1"
    by (simp add: assigns_existing_def)
  with ph show ?thesis
    using User_push_uninterrupted [OF assms(1)]
    by (auto simp: upload_resumed_def upload_def Let_def upsertSocialHandle_def)
qed

subsection \<open>The invariant, and where it stops\<close>

text \<open>
  C3. In every state reached by handling the requests one at a time, no user has two
  socialHandles entries with the same platform. Registration creates the user with the
  empty sequence; neither bootstrap touches the User collection; and a request other
  than an upload or a social-handle deletion leaves every user's socialHandles as they
  were: the users keep their ids and their handles in place, unless the request
  registered one more user, with no handles, or deleted one user.
\<close>

theorem socialHandles_no_duplicate_platform:
  "(reachable_sequentially E st \<longrightarrow>
      (\<forall>u \<in> set (users st). distinct (map platform (socialHandles u)))) \<and>
   users (initializeAdmin E st new_id salt) = users st \<and>
   users (fst (initAdmin_initializeAdmin uri st new_id)) = users st \<and>
   ((\<forall>a fs p h. r \<noteq> Upload a fs p h) \<and> (\<forall>a i p. r \<noteq> DeleteSocialHandle a i p) \<longrightarrow>
      map (\<lambda>u. (user_id u, socialHandles u))
          (users (fst (handle_request E st r new_id salt now))) =
        map (\<lambda>u. (user_id u, socialHandles u)) (users st) \<or>
      (\<exists>u. users (fst (handle_request E st r new_id salt now)) = users st @ [u] \<and>
           socialHandles u = []) \<or>
      (\<exists>u \<in> set (users st).
         users (fst (handle_request E st r new_id salt now)) = remove1 u (users st)))"
proof (intro conjI impI ballI)
  fix u assume "reachable_sequentially E st" and "u \<in> set (users st)"
  then show "distinct (map platform (socialHandles u))"
    using reachable_sequentially_handles_ok [of E st] by (simp add: handles_ok_def)
next
  show "users (initializeAdmin E st new_id salt) = users st"
    by (simp add: initializeAdmin_def split: option.splits)
next
  show "users (fst (initAdmin_initializeAdmin uri st new_id)) = users st"
    by (simp add: initAdmin_initializeAdmin_def split: option.splits)
next
  assume "(\<forall>a fs p h. r \<noteq> Upload a fs p h) \<and> (\<forall>a i p. r \<noteq> DeleteSocialHandle a i p)"
  then show "map (\<lambda>u. (user_id u, socialHandles u))
          (users (fst (handle_request E st r new_id salt now))) =
        map (\<lambda>u. (user_id u, socialHandles u)) (users st) \<or>
      (\<exists>u. users (fst (handle_request E st r new_id salt now)) = users st @ [u] \<and>
           socialHandles u = []) \<or>
      (\<exists>u \<in> set (users st).
         users (fst (handle_request E st r new_id salt now)) = remove1 u (users st))"
    using handle_request_frame [of r E st new_id salt now] by blast
qed

theorem socialHandles_no_duplicate_platform_witness:
  "reachable_sequentially example_env example_uploaded \<and>
   example_user \<in> set (users example_uploaded) \<and>
   socialHandles example_user = [\<lparr>platform = ''twitter'', handle = ''a'', addedAt = 7\<rparr>] \<and>
   distinct (map platform (socialHandles example_user)) \<and>
   users (initializeAdmin example_env example_uploaded 2 []) = users example_uploaded \<and>
   users (fst (initAdmin_initializeAdmin None example_uploaded 2)) = users example_uploaded \<and>
   users (fst (handle_request example_env example_uploaded
                 (Register ''bob@example.org'' ''pw'' ''Bob'') 2 [] 9)) =
     users example_uploaded @
       [\<lparr>user_id = 2, email = ''bob@example.org'', password = ''$pw'', name = ''Bob'',
         socialHandles = [], images = [], createdAt = 9\<rparr>]"
proof -
  note T = socialHandles_no_duplicate_platform
    [where E = example_env and st = example_uploaded and new_id = 2 and salt = "[]"
       and uri = None and r = "Register ''bob@example.org'' ''pw'' ''Bob''" and now = 9]
  have m: "example_user \<in> set (users example_uploaded)"
    by (simp add: example_uploaded_eq example_user_def)
  from T example_reachable m have d: "distinct (map platform (socialHandles example_user))"
    by blast
  from T have b: "users (initializeAdmin example_env example_uploaded 2 []) =
      users example_uploaded"
    and c: "users (fst (initAdmin_initializeAdmin None example_uploaded 2)) =
      users example_uploaded" by blast+
  have e: "socialHandles example_user =
      [\<lparr>platform = ''twitter'', handle = ''a'', addedAt = 7\<rparr>]"
    by (simp add: example_user_def)
  have f: "users (fst (handle_request example_env example_uploaded
                 (Register ''bob@example.org'' ''pw'' ''Bob'') 2 [] 9)) =
     users example_uploaded @
       [\<lparr>user_id = 2, email = ''bob@example.org'', password = ''$pw'', name = ''Bob'',
         socialHandles = [], images = [], createdAt = 9\<rparr>]"
    by (simp add: example_uploaded_eq register_def User_findOne_def User_save_new_def
        example_env_def)
  from example_reachable m e d b c f show ?thesis by blast
qed

text \<open>
  The invariant does not extend to every state the server reaches. Two uploads of the
  same user for the platform \<open>twitter\<close>, both loaded before either is saved, each find
  no twitter entry in their copy and push one; the stored user ends with two.
\<close>

theorem socialHandles_duplicate_counterexample:
  "reachable example_env example_raced [] \<and>
   users example_raced =
     [\<lparr>user_id = 1, email = ''ann@example.org'', password = ''$secret'', name = ''Ann'',
       socialHandles = [\<lparr>platform = ''twitter'', handle = ''a'', addedAt = 7\<rparr>,
                        \<lparr>platform = ''twitter'', handle = ''b'', addedAt = 8\<rparr>],
       images = [], createdAt = 0\<rparr>] \<and>
   \<not> distinct (map platform
        [\<lparr>platform = ''twitter'', handle = ''a'', addedAt = 7\<rparr>,
         \<lparr>platform = ''twitter'', handle = ''b'', addedAt = 8\<rparr>])"
proof -
  let ?a = "(example_loaded, None, Some ''twitter'', Some ''a'')"
  let ?b = "(example_loaded, None, Some ''twitter'', Some ''b'')"
  let ?mid = "upload_resumed example_env example_registered
                example_loaded None (Some ''twitter'') (Some ''a'') 7"
  have r0: "reachable example_env example_registered []"
    unfolding example_registered_def by (intro reachable.uninterrupted reachable.start)
  have load: "userAuth example_env example_registered (Some ''Bearer k.'') 7 = Inr example_loaded"
    by (simp add: example_userAuth example_loaded_def)
  have few: "\<not> (case None :: string list option of None \<Rightarrow> False | Some fs \<Rightarrow> length fs > 5)"
    by simp
  from reachable.upload_loaded [OF r0 load few]
  have r1: "reachable example_env example_registered [?a]" .
  from reachable.upload_loaded [OF r1 load few]
  have r2: "reachable example_env example_registered [?b, ?a]" .
  have push_a: "\<not> assigns_existing example_loaded (Some ''twitter'') (Some ''a'')"
    and push_b: "\<not> assigns_existing example_loaded (Some ''twitter'') (Some ''b'')"
    by (simp_all add: assigns_existing_def example_loaded_def)
  have "reachable example_env ?mid (remove1 ?a [?b, ?a])"
    by (rule reachable.upload_saved [OF r2 _ push_a]) simp
  then have r3: "reachable example_env ?mid [?b]" by simp
  have "reachable example_env example_raced (remove1 ?b [?b])"
    unfolding example_raced_def by (rule reachable.upload_saved [OF r3 _ push_b]) simp
  then have r4: "reachable example_env example_raced []" by simp
  have us: "users example_raced =
     [\<lparr>user_id = 1, email = ''ann@example.org'', password = ''$secret'', name = ''Ann'',
       socialHandles = [\<lparr>platform = ''twitter'', handle = ''a'', addedAt = 7\<rparr>,
                        \<lparr>platform = ''twitter'', handle = ''b'', addedAt = 8\<rparr>],
       images = [], createdAt = 0\<rparr>]"
    by (simp add: example_raced_def upload_resumed_def example_registered_eq example_loaded_def
        multer_store_def Let_def)
  from r4 us show ?thesis by simp
qed

subsection \<open>What the upsert computes\<close>

lemma social_handle_overwrite:
  "platform e = p \<Longrightarrow> e\<lparr>handle := h, addedAt := now\<rparr> = \<lparr>platform = p, handle = h, addedAt = now\<rparr>"
  by (cases e) simp

lemma upsert_absent:
  assumes "\<forall>e \<in> set hs. platform e \<noteq> p"
  shows "upsertSocialHandle hs p h now = hs @ [\<lparr>platform = p, handle = h, addedAt = now\<rparr>]"
proof -
  from assms have "findIndex (\<lambda>e. platform e = p) hs = - 1" by (simp add: findIndex_none)
  then show ?thesis by (simp add: upsertSocialHandle_def)
qed

lemma upsert_present:
  assumes "\<exists>e \<in> set hs. platform e = p"
  shows "\<exists>i < length hs. platform (hs ! i) = p \<and> (\<forall>j < i. platform (hs ! j) \<noteq> p) \<and>
           upsertSocialHandle hs p h now = hs[i := \<lparr>platform = p, handle = h, addedAt = now\<rparr>]"
proof -
  let ?i = "nat (findIndex (\<lambda>e. platform e = p) hs)"
  from assms have ne: "findIndex (\<lambda>e. platform e = p) hs \<noteq> - 1" by (simp add: findIndex_none)
  from findIndex_found [OF ne]
  have lt: "?i < length hs" and at: "platform (hs ! ?i) = p"
    and first: "\<forall>j < ?i. platform (hs ! j) \<noteq> p" by simp_all
  from ne at have "upsertSocialHandle hs p h now =
      hs[?i := \<lparr>platform = p, handle = h, addedAt = now\<rparr>]"
    by (simp add: upsertSocialHandle_def Let_def social_handle_overwrite)
  with lt at first show ?thesis by blast
qed

lemma filter_key_update:
  "distinct (map f xs) \<Longrightarrow> i < length xs \<Longrightarrow> f (xs ! i) = k \<Longrightarrow> f y = k \<Longrightarrow>
   filter (\<lambda>e. f e = k) (xs[i := y]) = [y]"
proof (induction xs arbitrary: i)
  case Nil
  then show ?case by simp
next
  case (Cons x xs)
  show ?case
  proof (cases i)
    case 0
    with Cons.prems have "k \<notin> f ` set xs" by simp
    then have "\<forall>e \<in> set xs. f e \<noteq> k" by blast
    then have "filter (\<lambda>e. f e = k) xs = []" by (simp add: filter_empty_conv)
    with 0 Cons.prems show ?thesis by simp
  next
    case (Suc j)
    with Cons.prems have "f (xs ! j) = k" and "j < length xs" by simp_all
    then have "k \<in> f ` set xs" by (metis imageI nth_mem)
    with Cons.prems have "f x \<noteq> k" by auto
    with Suc Cons show ?thesis by simp
  qed
qed

lemma upsert_exactly_one:
  assumes "distinct (map platform hs)"
  shows "filter (\<lambda>e. platform e = p) (upsertSocialHandle hs p h now) =
           [\<lparr>platform = p, handle = h, addedAt = now\<rparr>]"
proof (cases "\<exists>e \<in> set hs. platform e = p")
  case True
  from upsert_present [OF True, of h now] obtain i where
    "i < length hs" "platform (hs ! i) = p"
    "upsertSocialHandle hs p h now = hs[i := \<lparr>platform = p, handle = h, addedAt = now\<rparr>]"
    by blast
  with assms show ?thesis
    using filter_key_update [of platform hs i p "\<lparr>platform = p, handle = h, addedAt = now\<rparr>"]
    by simp
next
  case False
  then have "filter (\<lambda>e. platform e = p) hs = []" by (simp add: filter_empty_conv)
  with False show ?thesis by (simp add: upsert_absent)
qed

lemma upload_supplied:
  assumes "upload st u fs (Some p) (Some h) now = (st', Response 201 (UserDoc u'))"
    and "p \<noteq> []" and "h \<noteq> []"
  shows "socialHandles u' = upsertSocialHandle (socialHandles u) p h now"
  using upload_socialHandles [OF assms(1)] assms(2,3) by auto

text \<open>
  C2. An upload that supplies a platform and a handle (both non-empty, which is what the
  handler's test \<open>platform && handle\<close> accepts) always answers 201 with the saved
  document. When no entry of the user's socialHandles has that platform, the new entry
  \<open>{platform, handle, addedAt: now}\<close> is appended. When one has, the first such entry is
  replaced in place by \<open>{platform, handle, addedAt: now}\<close> and nothing is appended. Two
  such uploads in a row for the same platform, on a user without duplicate platforms,
  leave exactly one entry for the platform, carrying the second handle.
\<close>

theorem upload_upserts_social_handle:
  assumes "p \<noteq> []" and "h \<noteq> []"
  shows "\<exists>u'. upload st u fs (Some p) (Some h) now =
            (st\<lparr>users := User_save (users st) u'\<rparr>, Response 201 (UserDoc u')) \<and>
          ((\<forall>e \<in> set (socialHandles u). platform e \<noteq> p) \<longrightarrow>
             socialHandles u' =
               socialHandles u @ [\<lparr>platform = p, handle = h, addedAt = now\<rparr>]) \<and>
          ((\<exists>e \<in> set (socialHandles u). platform e = p) \<longrightarrow>
             (\<exists>i < length (socialHandles u).
                platform (socialHandles u ! i) = p \<and>
                (\<forall>j < i. platform (socialHandles u ! j) \<noteq> p) \<and>
                socialHandles u' =
                  (socialHandles u)[i := \<lparr>platform = p, handle = h, addedAt = now\<rparr>] \<and>
                length (socialHandles u') = length (socialHandles u))) \<and>
          (distinct (map platform (socialHandles u)) \<longrightarrow>
             (\<forall>h2 fs2 now2 st2 u2. h2 \<noteq> [] \<longrightarrow>
                upload (st\<lparr>users := User_save (users st) u'\<rparr>) u' fs2 (Some p) (Some h2) now2 =
                  (st2, Response 201 (UserDoc u2)) \<longrightarrow>
                filter (\<lambda>e. platform e = p) (socialHandles u2) =
                  [\<lparr>platform = p, handle = h2, addedAt = now2\<rparr>]))"
proof -
  obtain st' r where eq: "upload st u fs (Some p) (Some h) now = (st', r)"
    by (cases "upload st u fs (Some p) (Some h) now")
  from upload_socialHandles [OF eq] obtain u' where
    r: "r = Response 201 (UserDoc u')" and st': "st' = st\<lparr>users := User_save (users st) u'\<rparr>"
    by blast
  from eq r have eq': "upload st u fs (Some p) (Some h) now = (st', Response 201 (UserDoc u'))"
    by simp
  have sh: "socialHandles u' = upsertSocialHandle (socialHandles u) p h now"
    using upload_supplied [OF eq' assms] .
  have absent: "(\<forall>e \<in> set (socialHandles u). platform e \<noteq> p) \<longrightarrow>
      socialHandles u' = socialHandles u @ [\<lparr>platform = p, handle = h, addedAt = now\<rparr>]"
    using sh by (simp add: upsert_absent)
  have present: "(\<exists>e \<in> set (socialHandles u). platform e = p) \<longrightarrow>
      (\<exists>i < length (socialHandles u).
         platform (socialHandles u ! i) = p \<and>
         (\<forall>j < i. platform (socialHandles u ! j) \<noteq> p) \<and>
         socialHandles u' =
           (socialHandles u)[i := \<lparr>platform = p, handle = h, addedAt = now\<rparr>] \<and>
         length (socialHandles u') = length (socialHandles u))"
  proof
    assume ex: "\<exists>e \<in> set (socialHandles u). platform e = p"
    from upsert_present [OF ex, of h now] obtain i where
      i: "i < length (socialHandles u)" "platform (socialHandles u ! i) = p"
         "\<forall>j < i. platform (socialHandles u ! j) \<noteq> p"
         "upsertSocialHandle (socialHandles u) p h now =
            (socialHandles u)[i := \<lparr>platform = p, handle = h, addedAt = now\<rparr>]"
      by blast
    with sh have "socialHandles u' =
        (socialHandles u)[i := \<lparr>platform = p, handle = h, addedAt = now\<rparr>]" by simp
    moreover from this have "length (socialHandles u') = length (socialHandles u)" by simp
    ultimately show "\<exists>i < length (socialHandles u).
         platform (socialHandles u ! i) = p \<and>
         (\<forall>j < i. platform (socialHandles u ! j) \<noteq> p) \<and>
         socialHandles u' =
           (socialHandles u)[i := \<lparr>platform = p, handle = h, addedAt = now\<rparr>] \<and>
         length (socialHandles u') = length (socialHandles u)"
      using i by blast
  qed
  have twice: "distinct (map platform (socialHandles u)) \<longrightarrow>
      (\<forall>h2 fs2 now2 st2 u2. h2 \<noteq> [] \<longrightarrow>
         upload (st\<lparr>users := User_save (users st) u'\<rparr>) u' fs2 (Some p) (Some h2) now2 =
           (st2, Response 201 (UserDoc u2)) \<longrightarrow>
         filter (\<lambda>e. platform e = p) (socialHandles u2) =
           [\<lparr>platform = p, handle = h2, addedAt = now2\<rparr>])"
  proof (intro impI allI)
    fix h2 fs2 now2 st2 u2
    assume d: "distinct (map platform (socialHandles u))" and h2: "h2 \<noteq> []"
      and up: "upload (st\<lparr>users := User_save (users st) u'\<rparr>) u' fs2 (Some p) (Some h2) now2 =
                 (st2, Response 201 (UserDoc u2))"
    from d sh have d': "distinct (map platform (socialHandles u'))"
      by (simp add: upsert_distinct)
    from upload_supplied [OF up assms(1) h2]
    have "socialHandles u2 = upsertSocialHandle (socialHandles u') p h2 now2" .
    with d' show "filter (\<lambda>e. platform e = p) (socialHandles u2) =
        [\<lparr>platform = p, handle = h2, addedAt = now2\<rparr>]"
      by (simp add: upsert_exactly_one)
  qed
  from eq' st' absent present twice show ?thesis by blast
qed

theorem upload_upserts_social_handle_witness:
  "''twitter'' \<noteq> [] \<and> ''b'' \<noteq> [] \<and>
   (\<exists>e \<in> set (socialHandles example_user). platform e = ''twitter'') \<and>
   (\<exists>u'. upload example_uploaded example_user None (Some ''twitter'') (Some ''b'') 9 =
            (example_uploaded\<lparr>users := User_save (users example_uploaded) u'\<rparr>,
             Response 201 (UserDoc u')) \<and>
         socialHandles u' = [\<lparr>platform = ''twitter'', handle = ''b'', addedAt = 9\<rparr>])"
proof -
  have p: "''twitter'' \<noteq> []" and h: "''b'' \<noteq> []" by simp_all
  have ex: "\<exists>e \<in> set (socialHandles example_user). platform e = ''twitter''"
    by (simp add: example_user_def)
  from upload_upserts_social_handle [OF p h, of example_uploaded example_user None 9]
  obtain u' where
    1: "upload example_uploaded example_user None (Some ''twitter'') (Some ''b'') 9 =
          (example_uploaded\<lparr>users := User_save (users example_uploaded) u'\<rparr>,
           Response 201 (UserDoc u'))"
    and 2: "(\<exists>e \<in> set (socialHandles example_user). platform e = ''twitter'') \<longrightarrow>
      (\<exists>i < length (socialHandles example_user).
         platform (socialHandles example_user ! i) = ''twitter'' \<and>
         (\<forall>j < i. platform (socialHandles example_user ! j) \<noteq> ''twitter'') \<and>
         socialHandles u' =
           (socialHandles example_user)
             [i := \<lparr>platform = ''twitter'', handle = ''b'', addedAt = 9\<rparr>] \<and>
         length (socialHandles u') = length (socialHandles example_user))"
    by blast
  from 2 ex have "socialHandles u' = [\<lparr>platform = ''twitter'', handle = ''b'', addedAt = 9\<rparr>]"
    by (auto simp: example_user_def)
  with 1 p h ex show ?thesis by blast
qed

subsection \<open>Deleting a user\<close>

lemma unlink_images_eq:
  "unlink_images E fs ims = fs - (\<lambda>im. path_join E (url im)) ` set ims"
  by (induction ims arbitrary: fs) (auto simp: Let_def)

text \<open>
  C4. \<open>deleteUser\<close> of a well-formed id that no User has answers 404 \<open>User not found\<close>
  and leaves the collections and the files as they were. For an id that is not a
  well-formed object id, which no User has either, the lookup throws: the answer is 500
  with the message of the error, and again nothing is changed. When the User exists, the
  file of every entry of its images is removed from storage (a path with no file takes
  nothing away and raises nothing), that User document is removed from the collection,
  and the answer is 200 \<open>User deleted successfully\<close>.
\<close>

theorem deleteUser_cascades:
  "deleteUser E st (Malformed v) = (st, Response 500 (Error (cast_error E v))) \<and>
   (User_findById (users st) i = None \<longrightarrow>
      deleteUser E st (WellFormed i) = (st, Response 404 (Error ''User not found''))) \<and>
   (\<forall>u. User_findById (users st) i = Some u \<longrightarrow>
      deleteUser E st (WellFormed i) =
        (st\<lparr>files := files st - (\<lambda>im. path_join E (url im)) ` set (images u),
            users := remove1 u (users st)\<rparr>,
         Response 200 (Message ''User deleted successfully'')))"
proof (intro conjI impI allI)
  show "deleteUser E st (Malformed v) = (st, Response 500 (Error (cast_error E v)))"
    by (simp add: deleteUser_def)
next
  assume "User_findById (users st) i = None"
  then show "deleteUser E st (WellFormed i) = (st, Response 404 (Error ''User not found''))"
    by (simp add: deleteUser_def)
next
  fix u assume found: "User_findById (users st) i = Some u"
  have "(if 0 < length (images u) then unlink_images E (files st) (images u) else files st) =
        files st - (\<lambda>im. path_join E (url im)) ` set (images u)"
    by (simp add: unlink_images_eq)
  with found show "deleteUser E st (WellFormed i) =
        (st\<lparr>files := files st - (\<lambda>im. path_join E (url im)) ` set (images u),
            users := remove1 u (users st)\<rparr>,
         Response 200 (Message ''User deleted successfully''))"
    by (simp add: deleteUser_def User_findByIdAndDelete_remove1)
qed

theorem deleteUser_cascades_witness:
  "User_findById (users example_uploaded) 5 = None \<and>
   deleteUser example_env example_uploaded (WellFormed 5) =
     (example_uploaded, Response 404 (Error ''User not found'')) \<and>
   User_findById (users example_uploaded) 1 = Some example_user \<and>
   files example_uploaded = {''/app/uploads/7.png''} \<and>
   deleteUser example_env example_uploaded (WellFormed 1) =
     (\<lparr>users = [], admins = [], files = {}\<rparr>,
      Response 200 (Message ''User deleted successfully''))"
proof -
  have none: "User_findById (users example_uploaded) 5 = None"
    by (simp add: example_uploaded_eq User_findById_def)
  have some: "User_findById (users example_uploaded) 1 = Some example_user"
    by (simp add: example_uploaded_eq User_findById_def example_user_def)
  from deleteUser_cascades [where st = example_uploaded and i = 5 and E = example_env] none
  have a: "deleteUser example_env example_uploaded (WellFormed 5) =
     (example_uploaded, Response 404 (Error ''User not found''))" by blast
  from deleteUser_cascades [where st = example_uploaded and i = 1 and E = example_env] some
  have "deleteUser example_env example_uploaded (WellFormed 1) =
     (example_uploaded\<lparr>files := files example_uploaded -
          (\<lambda>im. path_join example_env (url im)) ` set (images example_user),
        users := remove1 example_user (users example_uploaded)\<rparr>,
      Response 200 (Message ''User deleted successfully''))" by blast
  then have b: "deleteUser example_env example_uploaded (WellFormed 1) =
     (\<lparr>users = [], admins = [], files = {}\<rparr>,
      Response 200 (Message ''User deleted successfully''))"
    by (simp add: example_uploaded_eq example_user_def example_env_def)
  from none some a b show ?thesis by (simp add: example_uploaded_eq)
qed

text \<open>
  The 404 does not extend to every id that no User has: \<open>abc\<close> is no object id, no User
  has it, and the answer is 500.
\<close>

theorem deleteUser_not_found_counterexample:
  "deleteUser example_env example_uploaded (Malformed ''abc'') =
     (example_uploaded, Response 500 (Error ''Cast to ObjectId failed for value abc'')) \<and>
   status (snd (deleteUser example_env example_uploaded (Malformed ''abc''))) \<noteq> 404"
  by (simp add: deleteUser_def example_env_def)

subsection \<open>Registration and login\<close>

text \<open>
  C7. Registration with an email that a User already has answers 400
  \<open>Email already registered\<close>, whatever the password and the name, and the state
  (the User collection included) is the one before the request.
\<close>

theorem register_duplicate_email:
  "User_findOne (users st) em = Some u \<Longrightarrow>
   register E st em pw nm new_id salt now = (st, Response 400 (Error ''Email already registered''))"
  by (simp add: register_def)

theorem register_duplicate_email_witness:
  "User_findOne (users example_registered) ''ann@example.org'' =
     Some \<lparr>user_id = 1, email = ''ann@example.org'', password = ''$secret'', name = ''Ann'',
           socialHandles = [], images = [], createdAt = 0\<rparr> \<and>
   register example_env example_registered ''ann@example.org'' ''other'' ''Bob'' 2 [] 3 =
     (example_registered, Response 400 (Error ''Email already registered''))"
proof -
  have f: "User_findOne (users example_registered) ''ann@example.org'' =
     Some \<lparr>user_id = 1, email = ''ann@example.org'', password = ''$secret'', name = ''Ann'',
           socialHandles = [], images = [], createdAt = 0\<rparr>"
    by (simp add: example_registered_eq User_findOne_def)
  from register_duplicate_email [OF f, of example_env "''other''" "''Bob''" 2 "[]" 3] f
  show ?thesis by simp
qed


lemma example_booted_eq:
  "example_booted =
     \<lparr>users = [example_user],
      admins = [\<lparr>admin_id = 2, username = ''admin@gmail.com'', admin_password = ''$admin''\<rparr>],
      files = {''/app/uploads/7.png''}\<rparr>"
  by (simp add: example_booted_def example_uploaded_eq initializeAdmin_def Admin_findOne_def
      Admin_save_new_def example_env_def example_user_def)



subsection \<open>Deleting a social handle\<close>

text \<open>
  C9. \<open>deleteSocialHandle\<close> for an existing user none of whose socialHandles entries has
  the platform of the request answers 200 \<open>Social handle deleted successfully\<close> and
  leaves the whole state, that user included, exactly as it was; so does the route once
  the admin gate has let the request through.
\<close>

theorem deleteSocialHandle_absent_platform:
  assumes "User_findById (users st) i = Some u"
    and "\<forall>h \<in> set (socialHandles u). Some (platform h) \<noteq> p"
  shows "deleteSocialHandle E st (WellFormed i) p =
           (st, Response 200 (Message ''Social handle deleted successfully'')) \<and>
         (\<forall>adm. auth E st a now = Inr adm \<longrightarrow>
            handle_request E st (DeleteSocialHandle a (WellFormed i) p) new_id salt now =
              (st, Response 200 (Message ''Social handle deleted successfully'')))"
proof -
  from assms(2) have "filter (\<lambda>h. Some (platform h) \<noteq> p) (socialHandles u) = socialHandles u"
    by (simp add: filter_id_conv)
  then have "u\<lparr>socialHandles := filter (\<lambda>h. Some (platform h) \<noteq> p) (socialHandles u)\<rparr> = u"
    by simp
  moreover from assms(1) have "User_save (users st) u = users st" by (rule User_save_same)
  ultimately have "deleteSocialHandle E st (WellFormed i) p =
           (st, Response 200 (Message ''Social handle deleted successfully''))"
    using assms(1) by (simp add: deleteSocialHandle_def)
  then show ?thesis by simp
qed

theorem deleteSocialHandle_absent_platform_witness:
  "User_findById (users example_booted) 1 = Some example_user \<and>
   ''github'' \<notin> set (map platform (socialHandles example_user)) \<and>
   auth example_env example_booted (Some ''Bearer k..'') 8 =
     Inr \<lparr>admin_id = 2, username = ''admin@gmail.com'', admin_password = ''$admin''\<rparr> \<and>
   deleteSocialHandle example_env example_booted (WellFormed 1) (Some ''github'') =
     (example_booted, Response 200 (Message ''Social handle deleted successfully'')) \<and>
   handle_request example_env example_booted
       (DeleteSocialHandle (Some ''Bearer k..'') (WellFormed 1) (Some ''github'')) 3 [] 8 =
     (example_booted, Response 200 (Message ''Social handle deleted successfully''))"
proof -
  have f: "User_findById (users example_booted) 1 = Some example_user"
    by (simp add: example_booted_eq User_findById_def example_user_def)
  have n: "\<forall>h \<in> set (socialHandles example_user). Some (platform h) \<noteq> Some ''github''"
    by (simp add: example_user_def)
  have g: "auth example_env example_booted (Some ''Bearer k..'') 8 =
     Inr \<lparr>admin_id = 2, username = ''admin@gmail.com'', admin_password = ''$admin''\<rparr>"
    by (simp add: example_booted_eq auth_def example_env_def Admin_findById_def)
  have n': "''github'' \<notin> set (map platform (socialHandles example_user))"
    by (simp add: example_user_def)
  from deleteSocialHandle_absent_platform
    [OF f n, where E = example_env and a = "Some ''Bearer k..''" and now = 8 and new_id = 3
       and salt = "[]"] f n' g
  show ?thesis by simp
qed

subsection \<open>The two bootstraps\<close>

text \<open>
  C1. On a state with an empty Admin collection the standalone script (run with the
  database URI configured) leaves exactly one Admin whose stored password is the literal
  \<open>admin\<close>, while the bootstrap of the server leaves exactly one Admin whose stored
  password is the bcrypt hash of \<open>admin\<close> at cost 10. As the hash of \<open>admin\<close> is not the
  string \<open>admin\<close> itself, the two stored passwords, and with them the two resulting
  states, differ.
\<close>

theorem bootstrap_paths_differ:
  assumes "admins st = []" and "truthy uri"
    and "bcrypt_hash E ''admin'' 10 salt \<noteq> ''admin''"
  shows "admins (fst (initAdmin_initializeAdmin uri st new_id)) =
           [\<lparr>admin_id = new_id, username = ''admin@gmail.com'', admin_password = ''admin''\<rparr>] \<and>
         admins (initializeAdmin E st new_id salt) =
           [\<lparr>admin_id = new_id, username = ''admin@gmail.com'',
             admin_password = bcrypt_hash E ''admin'' 10 salt\<rparr>] \<and>
         map admin_password (admins (fst (initAdmin_initializeAdmin uri st new_id))) \<noteq>
         map admin_password (admins (initializeAdmin E st new_id salt)) \<and>
         fst (initAdmin_initializeAdmin uri st new_id) \<noteq> initializeAdmin E st new_id salt"
proof -
  from assms(1) have none: "Admin_findOne (admins st) ''admin@gmail.com'' = None"
    by (simp add: Admin_findOne_def)
  from none assms(1,2)
  have script: "admins (fst (initAdmin_initializeAdmin uri st new_id)) =
      [\<lparr>admin_id = new_id, username = ''admin@gmail.com'', admin_password = ''admin''\<rparr>]"
    by (simp add: initAdmin_initializeAdmin_def Admin_save_new_def)
  from none assms(1)
  have server: "admins (initializeAdmin E st new_id salt) =
      [\<lparr>admin_id = new_id, username = ''admin@gmail.com'',
        admin_password = bcrypt_hash E ''admin'' 10 salt\<rparr>]"
    by (simp add: initializeAdmin_def Admin_save_new_def)
  from script server assms(3)
  have diff: "map admin_password (admins (fst (initAdmin_initializeAdmin uri st new_id))) \<noteq>
      map admin_password (admins (initializeAdmin E st new_id salt))"
    by simp
  then have "fst (initAdmin_initializeAdmin uri st new_id) \<noteq> initializeAdmin E st new_id salt"
    by auto
  with script server diff show ?thesis by simp
qed

theorem bootstrap_paths_differ_witness:
  "admins example_uploaded = [] \<and> truthy (Some ''mongodb://localhost/app'') \<and>
   bcrypt_hash example_env ''admin'' 10 [] \<noteq> ''admin'' \<and>
   admins (fst (initAdmin_initializeAdmin (Some ''mongodb://localhost/app'') example_uploaded 2)) =
     [\<lparr>admin_id = 2, username = ''admin@gmail.com'', admin_password = ''admin''\<rparr>] \<and>
   admins (initializeAdmin example_env example_uploaded 2 []) =
     [\<lparr>admin_id = 2, username = ''admin@gmail.com'', admin_password = ''$admin''\<rparr>]"
proof -
  have a: "admins example_uploaded = []" by (simp add: example_uploaded_eq)
  have b: "truthy (Some ''mongodb://localhost/app'')" by simp
  have c: "bcrypt_hash example_env ''admin'' 10 [] \<noteq> ''admin''" by (simp add: example_env_def)
  from bootstrap_paths_differ [OF a b c, of 2] a b c show ?thesis
    by (simp add: example_env_def)
qed

subsection \<open>Registration stores a hash\<close>

lemma find_snoc:
  "find P (xs @ [x]) = (case find P xs of Some y \<Rightarrow> Some y | None \<Rightarrow> if P x then Some x else None)"
  by (induction xs) simp_all

lemma register_created:
  assumes "register E st em pw nm new_id salt now = (st', Response 201 b)"
  shows "User_findOne (users st) em = None \<and>
         st' = st\<lparr>users := users st @
                  [\<lparr>user_id = new_id, email = em,
                    password = bcrypt_hash E pw (User_salt_rounds E) salt, name = nm,
                    socialHandles = [], images = [], createdAt = now\<rparr>]\<rparr> \<and>
         b = Message ''Registration successful''"
  using assms by (auto simp: register_def User_save_new_def split: option.splits)

text \<open>
  C6. After a successful registration the new User document is stored with the bcrypt
  hash of the submitted password in its password field, not the plaintext (the hash of a
  password is not the password), and a login with the same email and the same plaintext,
  which \<open>bcrypt.compare\<close> accepts against its hash, answers 200 with a token for the
  new user's id.
\<close>

theorem register_hashes_password:
  assumes "register E st em pw nm new_id salt now = (st', Response 201 b)"
    and "bcrypt_hash E pw (User_salt_rounds E) salt \<noteq> pw"
    and "bcrypt_compare E pw (bcrypt_hash E pw (User_salt_rounds E) salt)"
  shows "\<exists>u. users st' = users st @ [u] \<and> User_findOne (users st') em = Some u \<and>
             user_id u = new_id \<and>
             password u = bcrypt_hash E pw (User_salt_rounds E) salt \<and> password u \<noteq> pw \<and>
             (\<forall>t. user_login E st' em (Str pw) t =
                    Response 200 (Token (jwt_sign E new_id (JWT_SECRET E) t)))"
proof -
  let ?u = "\<lparr>user_id = new_id, email = em,
             password = bcrypt_hash E pw (User_salt_rounds E) salt, name = nm,
             socialHandles = [], images = [], createdAt = now\<rparr>"
  from register_created [OF assms(1)]
  have none: "User_findOne (users st) em = None" and st': "users st' = users st @ [?u]"
    by simp_all
  from none st' have found: "User_findOne (users st') em = Some ?u"
    by (simp add: User_findOne_def find_snoc)
  from found assms(3) have "\<forall>t. user_login E st' em (Str pw) t =
      Response 200 (Token (jwt_sign E new_id (JWT_SECRET E) t))"
    by (simp add: user_login_def)
  with st' found assms(2) show ?thesis by auto
qed

theorem register_hashes_password_witness:
  "register example_env \<lparr>users = [], admins = [], files = {}\<rparr>
       ''ann@example.org'' ''secret'' ''Ann'' 1 [] 0 =
     (example_registered, Response 201 (Message ''Registration successful'')) \<and>
   bcrypt_hash example_env ''secret'' (User_salt_rounds example_env) [] \<noteq> ''secret'' \<and>
   bcrypt_compare example_env ''secret''
     (bcrypt_hash example_env ''secret'' (User_salt_rounds example_env) []) \<and>
   (\<exists>u. users example_registered = [u] \<and> password u = ''$secret'' \<and> password u \<noteq> ''secret'' \<and>
        user_login example_env example_registered ''ann@example.org'' (Str ''secret'') 5 =
          Response 200 (Token ''k.''))"
proof -
  have r: "register example_env \<lparr>users = [], admins = [], files = {}\<rparr>
       ''ann@example.org'' ''secret'' ''Ann'' 1 [] 0 =
     (example_registered, Response 201 (Message ''Registration successful''))"
    by (simp add: example_registered_eq register_def User_findOne_def User_save_new_def
        example_env_def)
  have h: "bcrypt_hash example_env ''secret'' (User_salt_rounds example_env) [] \<noteq> ''secret''"
    by (simp add: example_env_def)
  have c: "bcrypt_compare example_env ''secret''
     (bcrypt_hash example_env ''secret'' (User_salt_rounds example_env) [])"
    by (simp add: example_env_def)
  from register_hashes_password [OF r h c] obtain u where
    "users example_registered = [] @ [u]"
    "password u = bcrypt_hash example_env ''secret'' (User_salt_rounds example_env) []"
    "password u \<noteq> ''secret''"
    "\<forall>t. user_login example_env example_registered ''ann@example.org'' (Str ''secret'') t =
        Response 200 (Token (jwt_sign example_env 1 (JWT_SECRET example_env) t))"
    by auto
  then have "users example_registered = [u] \<and> password u = ''$secret'' \<and>
      password u \<noteq> ''secret'' \<and>
      user_login example_env example_registered ''ann@example.org'' (Str ''secret'') 5 =
        Response 200 (Token ''k.'')"
    by (simp add: example_env_def)
  with r h c show ?thesis by blast
qed

subsection \<open>What the responses carry\<close>

lemma auth_Inl: "auth E st a now = Inl r \<Longrightarrow> r = Response 401 (Error ''Please authenticate.'')"
  by (auto simp: auth_def please_authenticate_def split: option.splits)

lemma userAuth_Inl:
  "userAuth E st a now = Inl r \<Longrightarrow> r = Response 401 (Error ''Please authenticate.'')"
  by (auto simp: userAuth_def please_authenticate_def split: option.splits)

text \<open>
  C10. A 201 answer of the upload route carries the User document exactly as it was just
  saved: looking the user up in the new state returns the document of the response, whose
  password field is the stored hash the user had before the request. A 200 answer of
  the list route carries every stored User document whole (the stored documents, sorted
  by \<open>createdAt\<close> descending), password field included. The 201 answer of registration
  carries only the message \<open>Registration successful\<close>.
\<close>

theorem responses_carry_stored_password:
  "(handle_request E st (Upload a fs p h) new_id salt now = (st', Response 201 (UserDoc d)) \<longrightarrow>
      User_findById (users st') (user_id d) = Some d \<and>
      (\<exists>u. User_findById (users st) (user_id d) = Some u \<and> password d = password u)) \<and>
   (handle_request E st (ListUsers a) new_id salt now = (st', Response 200 (UserDocs ds)) \<longrightarrow>
      st' = st \<and> ds = sort_key (\<lambda>u. - createdAt u) (users st) \<and> set ds = set (users st) \<and>
      length ds = length (users st)) \<and>
   (register E st em pw nm new_id salt now = (st', Response 201 b) \<longrightarrow>
      b = Message ''Registration successful'')"
proof (intro conjI impI)
  assume up: "handle_request E st (Upload a fs p h) new_id salt now =
                (st', Response 201 (UserDoc d))"
  then obtain u where au: "userAuth E st a now = Inr u"
    and run: "upload (multer_store E st fs) u fs p h now = (st', Response 201 (UserDoc d))"
    by (auto split: sum.splits if_splits dest: userAuth_Inl)
  from au obtain i where fu: "User_findById (users st) i = Some u"
    by (auto simp: userAuth_def split: option.splits)
  then have i: "user_id u = i" by (simp add: User_findById_mem)
  from upload_socialHandles [OF run]
  have st': "st' = (multer_store E st fs)\<lparr>users := User_save (users (multer_store E st fs)) d\<rparr>"
    and id: "user_id d = user_id u" and pw: "password d = password u" by auto
  from fu i id have "User_findById (User_save (users st) d) (user_id d) = Some d"
    by (simp add: User_findById_save)
  with st' show "User_findById (users st') (user_id d) = Some d" by simp
  from fu i id pw show "\<exists>u. User_findById (users st) (user_id d) = Some u \<and> password d = password u"
    by auto
next
  assume "handle_request E st (ListUsers a) new_id salt now = (st', Response 200 (UserDocs ds))"
  then have "st' = st \<and> ds = sort_key (\<lambda>u. - createdAt u) (users st)"
    by (auto simp: listUsers_def split: sum.splits dest: auth_Inl)
  then show "st' = st" and "ds = sort_key (\<lambda>u. - createdAt u) (users st)"
    and "set ds = set (users st)" and "length ds = length (users st)"
    by simp_all
next
  assume "register E st em pw nm new_id salt now = (st', Response 201 b)"
  then show "b = Message ''Registration successful''" by (simp add: register_created)
qed

theorem responses_carry_stored_password_witness:
  "handle_request example_env example_registered
       (Upload (Some ''Bearer k.'') (Some [''7.png'']) (Some ''twitter'') (Some ''a'')) 2 [] 7 =
     (example_uploaded, Response 201 (UserDoc example_user)) \<and>
   User_findById (users example_uploaded) (user_id example_user) = Some example_user \<and>
   password example_user = ''$secret'' \<and>
   handle_request example_env example_booted (ListUsers (Some ''Bearer k..'')) 3 [] 8 =
     (example_booted, Response 200 (UserDocs [example_user])) \<and>
   set [example_user] = set (users example_booted) \<and>
   register example_env \<lparr>users = [], admins = [], files = {}\<rparr>
       ''ann@example.org'' ''secret'' ''Ann'' 1 [] 0 =
     (example_registered, Response 201 (Message ''Registration successful''))"
proof -
  have up: "handle_request example_env example_registered
       (Upload (Some ''Bearer k.'') (Some [''7.png'']) (Some ''twitter'') (Some ''a'')) 2 [] 7 =
     (example_uploaded, Response 201 (UserDoc example_user))"
    by (simp add: example_userAuth)
       (simp add: example_uploaded_eq example_registered_eq upload_def multer_store_def
          upsertSocialHandle_def Let_def example_env_def example_user_def)
  have ls: "handle_request example_env example_booted (ListUsers (Some ''Bearer k..'')) 3 [] 8 =
     (example_booted, Response 200 (UserDocs [example_user]))"
    by (simp add: example_booted_eq auth_def example_env_def Admin_findById_def listUsers_def)
  have rg: "register example_env \<lparr>users = [], admins = [], files = {}\<rparr>
       ''ann@example.org'' ''secret'' ''Ann'' 1 [] 0 =
     (example_registered, Response 201 (Message ''Registration successful''))"
    by (simp add: example_registered_eq register_def User_findOne_def User_save_new_def
        example_env_def)
  from responses_carry_stored_password
    [where E = example_env and st = example_registered and a = "Some ''Bearer k.''"
       and fs = "Some [''7.png'']" and p = "Some ''twitter''" and h = "Some ''a''"
       and new_id = 2 and salt = "[]" and now = 7 and st' = example_uploaded
       and d = example_user] up
  have a: "User_findById (users example_uploaded) (user_id example_user) = Some example_user"
    by blast
  from responses_carry_stored_password
    [where E = example_env and st = example_booted and a = "Some ''Bearer k..''"
       and new_id = 3 and salt = "[]" and now = 8 and st' = example_booted
       and ds = "[example_user]"] ls
  have b: "set [example_user] = set (users example_booted)" by blast
  have c: "password example_user = ''$secret''" by (simp add: example_user_def)
  from up ls rg a b c show ?thesis by blast
qed

subsection \<open>Tokens and the two gates\<close>









end
